theory Spec2Isabelle
  imports Complex_Main "HOL-Library.Product_Lexorder" "HOL-Library.Multiset" "HOL-Library.Monad_Syntax"
begin

section \<open>Data model (app/schemas.py)\<close>

text \<open>
  Python \<open>int\<close> is modelled as \<open>int\<close>. Python \<open>float\<close> is modelled as \<open>real\<close>:
  every arithmetic operation of the source is the exact operation on real numbers, so
  rounding, infinities and NaN are outside this model. The float literals \<open>0.15\<close> and
  \<open>0.6\<close> are the rationals \<open>15/100\<close> and \<open>6/10\<close>.

  An operation of the source that can raise (\<open>/\<close> raises ZeroDivisionError on a zero
  divisor, \<open>xs[i]\<close> raises IndexError out of range) returns an \<open>option\<close>, and so does
  every function that uses one: \<open>None\<close> is the raised exception, \<open>Some v\<close> the returned
  value.

  The module-level \<open>storage\<close> object is read only through \<open>storage.list_bills()\<close>; every
  function of \<open>calculations.py\<close> therefore takes the stored bill list as its argument.
\<close>

record BillRead =
  bill_id :: int
  bill_year :: int
  bill_month :: int
  bill_kilowatt_hours :: real
  bill_cost :: real
  emission_factor_kg_per_kwh :: real

text \<open>The field constraints of \<open>BillBase\<close> (\<open>ge\<close>, \<open>le\<close>, \<open>gt\<close>), checked by pydantic
  whenever a bill is constructed.\<close>

definition valid_bill :: "BillRead \<Rightarrow> bool" where
  "valid_bill b \<longleftrightarrow>
     2000 \<le> bill_year b \<and> bill_year b \<le> 2100 \<and>
     1 \<le> bill_month b \<and> bill_month b \<le> 12 \<and>
     0 < bill_kilowatt_hours b \<and>
     0 \<le> bill_cost b \<and>
     0 \<le> emission_factor_kg_per_kwh b"

record UsagePoint =
  year :: int
  month :: int
  kilowatt_hours :: real
  cost :: real
  emissions_kg :: real

record UsageSummary =
  total_kwh :: real
  total_cost :: real
  total_emissions_kg :: real
  average_kwh :: real
  average_cost :: real
  average_emissions_kg :: real



record PredictionPoint =
  pp_year :: int
  pp_month :: int
  predicted_kwh :: real

record PredictionResult =
  horizon_months :: int
  predictions :: "PredictionPoint list"

record AdviceItem =
  title :: string
  detail :: string

record AdviceBundle =
  tips :: "AdviceItem list"

section \<open>Python built-ins used by the module\<close>

text \<open>\<open>sum(xs)\<close>: starts from 0 and adds the items from left to right.\<close>

definition sum_py :: "'a::monoid_add list \<Rightarrow> 'a" where
  "sum_py xs = foldl (\<lambda>acc x. acc + x) 0 xs"

text \<open>\<open>range(lo, hi)\<close> as a list; empty when \<open>hi \<le> lo\<close>.\<close>

definition py_range :: "int \<Rightarrow> int \<Rightarrow> int list" where
  "py_range lo hi = [lo..hi - 1]"

text \<open>Float division \<open>x / y\<close>.\<close>

definition float_div :: "real \<Rightarrow> real \<Rightarrow> real option" where
  "float_div x y = (if y = 0 then None else Some (x / y))"

text \<open>Indexing \<open>xs[i]\<close>; a negative index counts from the end.\<close>

definition index_py :: "'a list \<Rightarrow> int \<Rightarrow> 'a option" where
  "index_py xs i =
     (let n = int (length xs);
          j = (if i < 0 then n + i else i)
      in if 0 \<le> j \<and> j < n then Some (xs ! nat j) else None)"

text \<open>The sort key \<open>lambda p: (p.year, p.month)\<close>; tuples compare lexicographically.\<close>

definition period_key :: "UsagePoint \<Rightarrow> int \<times> int" where
  "period_key p = (year p, month p)"

text \<open>\<open>list.sort(key=...)\<close> and \<open>sorted(..., key=...)\<close> are stable ascending sorts.\<close>

definition sort_asc :: "UsagePoint list \<Rightarrow> UsagePoint list" where
  "sort_asc pts = sort_key period_key pts"

text \<open>\<open>list.sort(key=..., reverse=True)\<close>: descending, and items with equal keys keep
  their original relative order.\<close>

definition sort_desc :: "UsagePoint list \<Rightarrow> UsagePoint list" where
  "sort_desc pts = rev (sort_key period_key (rev pts))"


definition last_n :: "nat \<Rightarrow> 'a list \<Rightarrow> 'a list" where
  "last_n k xs = drop (length xs - k) xs"

section \<open>Usage projection (app/services/calculations.py)\<close>

definition emissions_kg_of :: "real \<Rightarrow> real \<Rightarrow> real" where
  "emissions_kg_of kwh factor = kwh * factor"

definition usage_point_of :: "BillRead \<Rightarrow> UsagePoint" where
  "usage_point_of b =
     \<lparr> year = bill_year b,
       month = bill_month b,
       kilowatt_hours = bill_kilowatt_hours b,
       cost = bill_cost b,
       emissions_kg = emissions_kg_of (bill_kilowatt_hours b) (emission_factor_kg_per_kwh b) \<rparr>"

definition get_usage_points :: "BillRead list \<Rightarrow> UsagePoint list" where
  "get_usage_points bills = map usage_point_of bills"


section \<open>Aggregation\<close>


section \<open>Trends\<close>




section \<open>Forecast\<close>

text \<open>In the flat branch the source reads \<open>y_values[-1]\<close> once per horizon step; there
  \<open>n \<noteq> 0\<close>, so the read is the same value each time and is taken once here.\<close>

definition linear_regression_predict :: "real list \<Rightarrow> int \<Rightarrow> real list option" where
  "linear_regression_predict y_values horizon =
     (let n = length y_values in
      if n = 0 then Some (map (\<lambda>_. 0) (py_range 0 horizon))
      else do {
        let x_vals = py_range 1 (int n + 1);
        mean_x \<leftarrow> float_div (real_of_int (sum_py x_vals)) (real n);
        mean_y \<leftarrow> float_div (sum_py y_values) (real n);
        let ss_xy = sum_py (map (\<lambda>(x, y). (real_of_int x - mean_x) * (y - mean_y))
                              (zip x_vals y_values));
        let ss_xx = sum_py (map (\<lambda>x. (real_of_int x - mean_x) ^ 2) x_vals);
        if ss_xx = 0 then do {
          y_last \<leftarrow> index_py y_values (- 1);
          Some (map (\<lambda>_. y_last) (py_range 0 horizon))
        }
        else do {
          b \<leftarrow> float_div ss_xy ss_xx;
          let a = mean_y - b * mean_x;
          Some (map (\<lambda>h. a + b * real_of_int (int n + h)) (py_range 1 (horizon + 1)))
        }
      })"

text \<open>The loop \<open>for value in preds\<close> of \<open>predict_usage\<close>, with the loop variables
  \<open>year\<close> and \<open>month\<close> passed along.\<close>

fun predict_loop :: "int \<Rightarrow> int \<Rightarrow> real list \<Rightarrow> PredictionPoint list" where
  "predict_loop y m [] = []"
| "predict_loop y m (v # preds) =
     (let m1 = m + 1;
          m2 = (if m1 > 12 then 1 else m1);
          y2 = (if m1 > 12 then y + 1 else y)
      in \<lparr> pp_year = y2, pp_month = m2, predicted_kwh = max 0 v \<rparr> # predict_loop y2 m2 preds)"

definition predict_usage :: "BillRead list \<Rightarrow> int \<Rightarrow> PredictionResult option" where
  "predict_usage bills horizon =
     (let pts = sort_asc (get_usage_points bills);
          y_values = map kilowatt_hours pts
      in do {
        preds \<leftarrow> linear_regression_predict y_values horizon;
        start \<leftarrow> (if pts \<noteq> []
                  then do { l \<leftarrow> index_py pts (- 1); Some (year l, month l) }
                  else Some (2000, 1));
        Some \<lparr> horizon_months = horizon,
               predictions = predict_loop (fst start) (snd start) preds \<rparr>
      })"

section \<open>Advisory rules\<close>

definition add_data_tip :: AdviceItem where
  "add_data_tip =
     \<lparr> title = ''Add data'',
       detail = ''Submit recent bills to unlock insights and advice.'' \<rparr>"

definition high_cost_tip :: AdviceItem where
  "high_cost_tip =
     \<lparr> title = ''High cost per kWh'',
       detail = ''Consider switching to a time-of-use plan, shifting heavy loads to off-peak, ''
                @ ''or auditing for phantom loads (standby electronics).'' \<rparr>"

definition rising_usage_tip :: AdviceItem where
  "rising_usage_tip =
     \<lparr> title = ''Rising energy usage'',
       detail = ''Usage is trending up. Check HVAC filters, lighting schedules, and appliance efficiency. ''
                @ ''Seal drafts and consider LED retrofits.'' \<rparr>"

definition carbon_intensity_tip :: AdviceItem where
  "carbon_intensity_tip =
     \<lparr> title = ''Carbon intensity is high'',
       detail = ''Your grid has relatively high CO2e/kWh. Consider rooftop solar or purchasing green energy credits.'' \<rparr>"

text \<open>The degree sign of the source text is the code point \<open>0xB0\<close>.\<close>

definition quick_wins_tip :: AdviceItem where
  "quick_wins_tip =
     \<lparr> title = ''Quick wins'',
       detail = ''Set thermostats efficiently (24-26'' @ [CHR 0xB0] @ ''C cooling, 19-21''
                @ [CHR 0xB0] @ ''C heating), use smart power strips, ''
                @ ''and schedule appliances.'' \<rparr>"

text \<open>The three conditional rules of \<open>generate_advice\<close>, each returning the tips it
  appends to \<open>tips\<close>.\<close>

definition cost_rule :: "UsagePoint list \<Rightarrow> AdviceItem list option" where
  "cost_rule pts =
     do {
       latest \<leftarrow> index_py (sort_asc pts) (- 1);
       cost_per_kwh \<leftarrow> (if kilowatt_hours latest > 0
                        then float_div (cost latest) (kilowatt_hours latest)
                        else Some 0);
       Some (if cost_per_kwh > 15 / 100 then [high_cost_tip] else [])
     }"

definition rising_rule :: "UsagePoint list \<Rightarrow> AdviceItem list option" where
  "rising_rule pts =
     (if length pts \<ge> 3 then do {
        let last3 = last_n 3 (sort_asc pts);
        p2 \<leftarrow> index_py last3 2;
        p0 \<leftarrow> index_py last3 0;
        Some (if kilowatt_hours p2 > kilowatt_hours p0 then [rising_usage_tip] else [])
      }
      else Some [])"

definition carbon_rule :: "UsagePoint list \<Rightarrow> AdviceItem list option" where
  "carbon_rule pts =
     do {
       avg_emission_factor \<leftarrow>
         (if pts \<noteq> [] then do {
            let total_kwh = sum_py (map kilowatt_hours pts);
            let total_emissions = sum_py (map emissions_kg pts);
            if total_kwh > 0 then float_div total_emissions total_kwh else Some 0
          }
          else Some 0);
       Some (if avg_emission_factor \<ge> 6 / 10 then [carbon_intensity_tip] else [])
     }"

definition generate_advice :: "BillRead list \<Rightarrow> AdviceBundle option" where
  "generate_advice bills =
     (let pts = get_usage_points bills in
      if pts = [] then Some \<lparr> tips = [add_data_tip] \<rparr>
      else do {
        tips1 \<leftarrow> cost_rule pts;
        tips2 \<leftarrow> rising_rule pts;
        tips3 \<leftarrow> carbon_rule pts;
        Some \<lparr> tips = tips1 @ tips2 @ tips3 @ [quick_wins_tip] \<rparr>
      })"

section \<open>Vocabulary of the properties\<close>

text \<open>The period of a stored bill, the key the usage points are sorted by.\<close>

definition bill_key :: "BillRead \<Rightarrow> int \<times> int" where
  "bill_key b = (bill_year b, bill_month b)"

text \<open>The positional constructor of a stored bill: id, year, month, kWh, cost, factor.\<close>

definition mk_bill :: "int \<Rightarrow> int \<Rightarrow> int \<Rightarrow> real \<Rightarrow> real \<Rightarrow> real \<Rightarrow> BillRead" where
  "mk_bill i y m k c e =
     \<lparr> bill_id = i, bill_year = y, bill_month = m, bill_kilowatt_hours = k,
       bill_cost = c, emission_factor_kg_per_kwh = e \<rparr>"

text \<open>The ordinary least-squares fit of \<open>ys\<close> against \<open>x = 1..n\<close> as the specification
  writes it: \<open>b = \<Sum>(x - meanX)(y - meanY) / \<Sum>(x - meanX)\<^sup>2\<close> and \<open>a = meanY - b * meanX\<close>.
  Position \<open>i\<close> of the list (counted from 0) carries \<open>x = i + 1\<close>.\<close>

definition ols_mean_x :: "nat \<Rightarrow> real" where
  "ols_mean_x n = (\<Sum>i\<leftarrow>[0..<n]. real (i + 1)) / real n"

definition ols_mean_y :: "real list \<Rightarrow> real" where
  "ols_mean_y ys = (\<Sum>i\<leftarrow>[0..<length ys]. ys ! i) / real (length ys)"

definition ols_ss_xx :: "nat \<Rightarrow> real" where
  "ols_ss_xx n = (\<Sum>i\<leftarrow>[0..<n]. (real (i + 1) - ols_mean_x n) ^ 2)"

definition ols_ss_xy :: "real list \<Rightarrow> real" where
  "ols_ss_xy ys =
     (\<Sum>i\<leftarrow>[0..<length ys]. (real (i + 1) - ols_mean_x (length ys)) * (ys ! i - ols_mean_y ys))"

definition ols_slope :: "real list \<Rightarrow> real" where
  "ols_slope ys = ols_ss_xy ys / ols_ss_xx (length ys)"

definition ols_intercept :: "real list \<Rightarrow> real" where
  "ols_intercept ys = ols_mean_y ys - ols_slope ys * ols_mean_x (length ys)"

section \<open>Auxiliary facts\<close>

lemma foldl_add_acc: "foldl (\<lambda>acc x. acc + x) (a::'a::monoid_add) xs = a + sum_list xs"
  by (induction xs arbitrary: a) (simp_all add: add.assoc)

lemma sum_py_sum_list: "sum_py xs = sum_list xs"
  by (simp add: sum_py_def foldl_add_acc)

lemma float_div_Some: "y \<noteq> 0 \<Longrightarrow> float_div x y = Some (x / y)"
  by (simp add: float_div_def)

lemma index_py_last: "xs \<noteq> [] \<Longrightarrow> index_py xs (- 1) = Some (last xs)"
  by (cases xs rule: rev_cases) (simp_all add: index_py_def Let_def nat_diff_distrib last_conv_nth)


lemma length_sort_asc: "length (sort_asc pts) = length pts"
  by (simp add: sort_asc_def)

lemma sort_asc_Nil_iff: "sort_asc pts = [] \<longleftrightarrow> pts = []"
  by (metis length_sort_asc length_0_conv)

lemma length_get_usage_points: "length (get_usage_points bills) = length bills"
  by (simp add: get_usage_points_def)

lemma get_usage_points_Nil_iff: "get_usage_points bills = [] \<longleftrightarrow> bills = []"
  by (simp add: get_usage_points_def)

lemma py_range_length: "length (py_range lo hi) = nat (hi - lo)"
  by (simp add: py_range_def)

lemma predict_loop_length: "length (predict_loop y m vs) = length vs"
  by (induction vs arbitrary: y m) (simp_all add: Let_def)

lemma predict_loop_values: "map predicted_kwh (predict_loop y m vs) = map (max 0) vs"
  by (induction vs arbitrary: y m) (simp_all add: Let_def)

text \<open>Sorting commutes with the projection of bills to usage points.\<close>

lemma insort_key_map:
  "insort_key f (g x) (map g xs) = map g (insort_key (\<lambda>a. f (g a)) x xs)"
  by (induction xs) simp_all

lemma sort_key_map:
  "sort_key f (map g xs) = map g (sort_key (\<lambda>a. f (g a)) xs)"
  by (induction xs) (simp_all add: insort_key_map)

lemma period_key_usage_point_of: "period_key (usage_point_of b) = bill_key b"
  by (simp add: period_key_def usage_point_of_def bill_key_def)

lemma sort_asc_usage_points:
  "sort_asc (get_usage_points bills) = map usage_point_of (sort_key bill_key bills)"
  by (simp add: sort_asc_def get_usage_points_def sort_key_map period_key_usage_point_of)

lemma sort_desc_usage_points:
  "sort_desc (get_usage_points bills) = map usage_point_of (rev (sort_key bill_key (rev bills)))"
  by (simp add: sort_desc_def get_usage_points_def sort_key_map period_key_usage_point_of rev_map)

section \<open>Forecast on an empty store\<close>

text \<open>
  C1, as stated: with no records and horizon 3 the forecast would be three zero
  predictions for the periods 2001-01, 2001-02 and 2001-03. The code does not return
  that: the seed period is 2000-01 and the loop adds one month before it emits a point.
\<close>

theorem predict_empty_not_2001:
  "predict_usage [] 3 \<noteq>
     Some \<lparr> horizon_months = 3,
            predictions =
              [\<lparr> pp_year = 2001, pp_month = 1, predicted_kwh = 0 \<rparr>,
               \<lparr> pp_year = 2001, pp_month = 2, predicted_kwh = 0 \<rparr>,
               \<lparr> pp_year = 2001, pp_month = 3, predicted_kwh = 0 \<rparr>] \<rparr>"
  by (simp add: predict_usage_def sort_asc_def get_usage_points_def
      linear_regression_predict_def py_range_def upto.simps)

text \<open>
  C1, amended: with no records and horizon 3, \<open>predict_usage\<close> returns exactly three
  predictions, each with \<open>predicted_kwh = 0\<close>, for the periods 2000-02, 2000-03 and
  2000-04: the first is one month after the 2000-01 seed and the following ones advance
  month by month.
\<close>

theorem predict_empty_horizon_3:
  "predict_usage [] 3 =
     Some \<lparr> horizon_months = 3,
            predictions =
              [\<lparr> pp_year = 2000, pp_month = 2, predicted_kwh = 0 \<rparr>,
               \<lparr> pp_year = 2000, pp_month = 3, predicted_kwh = 0 \<rparr>,
               \<lparr> pp_year = 2000, pp_month = 4, predicted_kwh = 0 \<rparr>] \<rparr>"
  by (simp add: predict_usage_def sort_asc_def get_usage_points_def
      linear_regression_predict_def py_range_def upto.simps)

section \<open>Properties of the summary\<close>





section \<open>Properties of the advisory rules\<close>

lemma cost_rule_Some:
  assumes "pts \<noteq> []"
  shows "cost_rule pts =
     Some (if kilowatt_hours (last (sort_asc pts)) > 0
              \<and> cost (last (sort_asc pts)) / kilowatt_hours (last (sort_asc pts)) > 15 / 100
           then [high_cost_tip] else [])"
  using assms
  by (simp add: cost_rule_def index_py_last sort_asc_Nil_iff float_div_Some)

lemma last_n_3_nth:
  assumes "3 \<le> length xs"
  shows "index_py (last_n 3 xs) 2 = Some (xs ! (length xs - 1))"
    and "index_py (last_n 3 xs) 0 = Some (xs ! (length xs - 3))"
proof -
  have "length xs - 3 + 2 = length xs - 1" using assms by arith
  then show "index_py (last_n 3 xs) 2 = Some (xs ! (length xs - 1))"
    using assms by (simp add: index_py_def last_n_def Let_def del: One_nat_def)
  show "index_py (last_n 3 xs) 0 = Some (xs ! (length xs - 3))"
    using assms by (simp add: index_py_def last_n_def Let_def)
qed

lemma rising_rule_Some:
  "rising_rule pts =
     Some (if 3 \<le> length pts
              \<and> kilowatt_hours (sort_asc pts ! (length pts - 3))
                  < kilowatt_hours (sort_asc pts ! (length pts - 1))
           then [rising_usage_tip] else [])"
  by (simp add: rising_rule_def last_n_3_nth length_sort_asc Let_def del: One_nat_def)

lemma carbon_rule_Some:
  "carbon_rule pts =
     Some (if pts \<noteq> [] \<and> 0 < sum_list (map kilowatt_hours pts)
              \<and> 6 / 10 \<le> sum_list (map emissions_kg pts) / sum_list (map kilowatt_hours pts)
           then [carbon_intensity_tip] else [])"
  by (simp add: carbon_rule_def sum_py_sum_list float_div_Some Let_def)

lemma generate_advice_nonempty:
  assumes "bills \<noteq> []"
    and "cost_rule (get_usage_points bills) = Some c"
    and "rising_rule (get_usage_points bills) = Some u"
    and "carbon_rule (get_usage_points bills) = Some e"
  shows "generate_advice bills = Some \<lparr> tips = c @ u @ e @ [quick_wins_tip] \<rparr>"
  using assms by (simp add: generate_advice_def get_usage_points_Nil_iff Let_def)

lemma generate_advice_empty: "generate_advice [] = Some \<lparr> tips = [add_data_tip] \<rparr>"
  by (simp add: generate_advice_def get_usage_points_def)

lemma rising_tip_distinct:
  "rising_usage_tip \<noteq> high_cost_tip" "rising_usage_tip \<noteq> carbon_intensity_tip"
  "rising_usage_tip \<noteq> quick_wins_tip" "rising_usage_tip \<noteq> add_data_tip"
  by (simp_all add: rising_usage_tip_def high_cost_tip_def carbon_intensity_tip_def
      quick_wins_tip_def add_data_tip_def)

text \<open>
  C4: \<open>generate_advice\<close> on an empty store returns exactly the one "Add data" tip (the
  function returns before any other rule); on a single point with cost 20 and kWh 100
  (cost per kWh 0.2, above 0.15) whose average emission factor, emissions over kWh, is at
  least 0.6, it returns exactly three tips in the order high cost, carbon intensity,
  quick wins (the rising-usage rule does not apply to fewer than 3 points).
\<close>

theorem generate_advice_empty_and_single_point:
  "generate_advice [] = Some \<lparr> tips = [add_data_tip] \<rparr>
   \<and> (bill_cost b = 20 \<and> bill_kilowatt_hours b = 100
        \<and> 6 / 10 \<le> emissions_kg (usage_point_of b) / kilowatt_hours (usage_point_of b)
      \<longrightarrow> generate_advice [b] =
            Some \<lparr> tips = [high_cost_tip, carbon_intensity_tip, quick_wins_tip] \<rparr>)"
proof (intro conjI impI)
  show "generate_advice [] = Some \<lparr> tips = [add_data_tip] \<rparr>"
    by (rule generate_advice_empty)
next
  assume h: "bill_cost b = 20 \<and> bill_kilowatt_hours b = 100
        \<and> 6 / 10 \<le> emissions_kg (usage_point_of b) / kilowatt_hours (usage_point_of b)"
  have pts: "get_usage_points [b] = [usage_point_of b]" by (simp add: get_usage_points_def)
  have k: "kilowatt_hours (usage_point_of b) = 100" "cost (usage_point_of b) = 20"
    using h by (simp_all add: usage_point_of_def)
  have c: "cost_rule [usage_point_of b] = Some [high_cost_tip]"
    by (simp add: cost_rule_Some sort_asc_def k)
  have u: "rising_rule [usage_point_of b] = Some []"
    by (simp add: rising_rule_Some)
  have e: "carbon_rule [usage_point_of b] = Some [carbon_intensity_tip]"
    using h by (simp add: carbon_rule_Some k)
  show "generate_advice [b] =
            Some \<lparr> tips = [high_cost_tip, carbon_intensity_tip, quick_wins_tip] \<rparr>"
    using generate_advice_nonempty [of "[b]", unfolded pts, OF _ c u e] by simp
qed

theorem generate_advice_empty_and_single_point_witness:
  "bill_cost (mk_bill 1 2023 5 100 20 (7 / 10)) = 20
   \<and> bill_kilowatt_hours (mk_bill 1 2023 5 100 20 (7 / 10)) = 100
   \<and> 6 / 10 \<le> emissions_kg (usage_point_of (mk_bill 1 2023 5 100 20 (7 / 10)))
                / kilowatt_hours (usage_point_of (mk_bill 1 2023 5 100 20 (7 / 10)))
   \<and> generate_advice [mk_bill 1 2023 5 100 20 (7 / 10)] =
       Some \<lparr> tips = [high_cost_tip, carbon_intensity_tip, quick_wins_tip] \<rparr>"
  using generate_advice_empty_and_single_point [of "mk_bill 1 2023 5 100 20 (7 / 10)"]
  by (simp add: mk_bill_def usage_point_of_def emissions_kg_of_def)

text \<open>
  C7: \<open>generate_advice\<close> returns a bundle for every store, and the "Rising energy usage"
  tip is in it if and only if the store has at least 3 bills and, in the bills sorted
  ascending by (year, month), the last one has strictly more kWh than the third from the
  end (the one between them is not looked at). With fewer than 3 bills no exception is
  raised and the tip is absent.
\<close>

theorem rising_usage_rule_iff:
  "\<exists>r. generate_advice bills = Some r
      \<and> (rising_usage_tip \<in> set (tips r) \<longleftrightarrow>
           3 \<le> length bills
           \<and> bill_kilowatt_hours (sort_key bill_key bills ! (length bills - 3))
               < bill_kilowatt_hours (sort_key bill_key bills ! (length bills - 1)))"
proof (cases "bills = []")
  case True
  then show ?thesis by (simp add: generate_advice_empty rising_tip_distinct)
next
  case False
  let ?pts = "get_usage_points bills"
  let ?fires = "3 \<le> length bills
           \<and> bill_kilowatt_hours (sort_key bill_key bills ! (length bills - 3))
               < bill_kilowatt_hours (sort_key bill_key bills ! (length bills - 1))"
  from False have ne: "?pts \<noteq> []" by (simp add: get_usage_points_Nil_iff)
  obtain c where c: "cost_rule ?pts = Some c" "c = [] \<or> c = [high_cost_tip]"
    using cost_rule_Some [OF ne] by (cases "cost_rule ?pts") (auto split: if_splits)
  obtain e where e: "carbon_rule ?pts = Some e" "e = [] \<or> e = [carbon_intensity_tip]"
    using carbon_rule_Some [of ?pts] by (cases "carbon_rule ?pts") (auto split: if_splits)
  have kwh: "i < length bills \<Longrightarrow>
      kilowatt_hours (sort_asc ?pts ! i) = bill_kilowatt_hours (sort_key bill_key bills ! i)" for i
    by (simp add: sort_asc_usage_points usage_point_of_def)
  have u: "rising_rule ?pts = Some (if ?fires then [rising_usage_tip] else [])"
    by (simp add: rising_rule_Some length_get_usage_points kwh del: One_nat_def)
  have r: "generate_advice bills =
      Some \<lparr> tips = c @ (if ?fires then [rising_usage_tip] else []) @ e @ [quick_wins_tip] \<rparr>"
    by (rule generate_advice_nonempty [OF False c(1) u e(1)])
  show ?thesis
    unfolding r using c(2) e(2) by (auto simp: rising_tip_distinct)
qed

text \<open>
  C10: for every store \<open>generate_advice\<close> returns between 1 and 4 tips; the empty store
  gives exactly the "Add data" tip; a non-empty store gives a list that ends with the
  "Quick wins" tip, preceded by at most the high-cost tip, the rising-usage tip and the
  carbon-intensity tip, in that order.
\<close>

theorem generate_advice_tip_count:
  "\<exists>r. generate_advice bills = Some r
      \<and> 1 \<le> length (tips r) \<and> length (tips r) \<le> 4
      \<and> (bills = [] \<longrightarrow> tips r = [add_data_tip])
      \<and> (bills \<noteq> [] \<longrightarrow>
            last (tips r) = quick_wins_tip
            \<and> (\<exists>c u e. tips r = c @ u @ e @ [quick_wins_tip]
                  \<and> (c = [] \<or> c = [high_cost_tip])
                  \<and> (u = [] \<or> u = [rising_usage_tip])
                  \<and> (e = [] \<or> e = [carbon_intensity_tip])))"
proof (cases "bills = []")
  case True
  then show ?thesis by (simp add: generate_advice_empty)
next
  case False
  let ?pts = "get_usage_points bills"
  from False have ne: "?pts \<noteq> []" by (simp add: get_usage_points_Nil_iff)
  obtain c where c: "cost_rule ?pts = Some c" "c = [] \<or> c = [high_cost_tip]"
    using cost_rule_Some [OF ne] by (cases "cost_rule ?pts") (auto split: if_splits)
  obtain u where u: "rising_rule ?pts = Some u" "u = [] \<or> u = [rising_usage_tip]"
    using rising_rule_Some [of ?pts] by (cases "rising_rule ?pts") (auto split: if_splits)
  obtain e where e: "carbon_rule ?pts = Some e" "e = [] \<or> e = [carbon_intensity_tip]"
    using carbon_rule_Some [of ?pts] by (cases "carbon_rule ?pts") (auto split: if_splits)
  have r: "generate_advice bills = Some \<lparr> tips = c @ u @ e @ [quick_wins_tip] \<rparr>"
    by (rule generate_advice_nonempty [OF False c(1) u(1) e(1)])
  have len: "length (c @ u @ e @ [quick_wins_tip]) \<le> 4"
    using c(2) u(2) e(2) by auto
  show ?thesis
    unfolding r using False c(2) u(2) e(2) len by auto
qed

theorem generate_advice_tip_count_witness:
  "(\<exists>r. generate_advice [] = Some r \<and> tips r = [add_data_tip])
   \<and> [mk_bill 1 2023 5 100 20 (7 / 10)] \<noteq> []
   \<and> (\<exists>r. generate_advice [mk_bill 1 2023 5 100 20 (7 / 10)] = Some r
         \<and> 1 \<le> length (tips r) \<and> length (tips r) \<le> 4
         \<and> last (tips r) = quick_wins_tip)"
  using generate_advice_tip_count [of "[]"]
    generate_advice_tip_count [of "[mk_bill 1 2023 5 100 20 (7 / 10)]"]
  by auto

section \<open>Properties of recent usage\<close>





section \<open>Properties of the forecast\<close>

lemma upto_1_int: "[1..int n] = map (\<lambda>i. int i + 1) [0..<n]"
proof (induction n)
  case 0
  show ?case by simp
next
  case (Suc n)
  have "[1..int (Suc n)] = [1..int n] @ [int n + 1]"
    using upto_rec2 [of 1 "int n + 1"] by (simp add: add.commute)
  then show ?case using Suc by simp
qed

lemma x_vals_eq: "py_range 1 (int n + 1) = map (\<lambda>i. int i + 1) [0..<n]"
  by (simp add: py_range_def upto_1_int)

lemma zip_map_upt:
  "length ys = n \<Longrightarrow> zip (map f [0..<n]) ys = map (\<lambda>i. (f i, ys ! i)) [0..<n]"
  by (rule nth_equalityI) simp_all

lemma sum_list_nth: "sum_list ys = (\<Sum>i\<leftarrow>[0..<length ys]. ys ! i)"
  by (simp add: map_nth)

lemma mean_x_code:
  "real_of_int (sum_py (py_range 1 (int n + 1))) / real n = ols_mean_x n"
proof -
  have "real_of_int (sum_list (map (\<lambda>i. int i + 1) [0..<n])) = (\<Sum>i\<leftarrow>[0..<n]. real (i + 1))"
    by (induction n) simp_all
  then show ?thesis by (simp add: sum_py_sum_list x_vals_eq ols_mean_x_def)
qed

lemma mean_y_code: "sum_py ys / real (length ys) = ols_mean_y ys"
  using sum_list_nth [of ys] by (simp add: sum_py_sum_list ols_mean_y_def)

lemma ss_xx_code:
  "sum_py (map (\<lambda>x. (real_of_int x - ols_mean_x n) ^ 2) (py_range 1 (int n + 1))) = ols_ss_xx n"
  unfolding x_vals_eq by (simp add: sum_py_sum_list ols_ss_xx_def comp_def add.commute)

lemma ss_xy_code:
  "sum_py (map (\<lambda>(x, y). (real_of_int x - ols_mean_x (length ys)) * (y - ols_mean_y ys))
             (zip (py_range 1 (int (length ys) + 1)) ys)) = ols_ss_xy ys"
  unfolding x_vals_eq by (simp add: sum_py_sum_list ols_ss_xy_def zip_map_upt comp_def add.commute)


lemma ols_ss_xx_single: "ols_ss_xx (Suc 0) = 0"
  by (simp add: ols_ss_xx_def ols_mean_x_def)

lemma lrp_nonempty:
  assumes "ys \<noteq> []"
  shows "linear_regression_predict ys h =
     (if ols_ss_xx (length ys) = 0
      then Some (map (\<lambda>_. last ys) (py_range 0 h))
      else Some (map (\<lambda>j. ols_intercept ys + ols_slope ys * real_of_int (int (length ys) + j))
                   (py_range 1 (h + 1))))"
proof -
  have n: "real (length ys) \<noteq> 0" "length ys \<noteq> 0" using assms by simp_all
  show ?thesis
    unfolding linear_regression_predict_def Let_def
    using n assms
    by (simp add: mean_x_code mean_y_code ss_xx_code ss_xy_code float_div_Some index_py_last
        ols_slope_def ols_intercept_def)
qed

lemma lrp_empty: "linear_regression_predict [] h = Some (replicate (nat h) 0)"
  by (simp add: linear_regression_predict_def py_range_def map_replicate_const)

lemma lrp_single: "linear_regression_predict [k] h = Some (replicate (nat h) k)"
  by (simp add: lrp_nonempty ols_ss_xx_single py_range_def map_replicate_const)


lemma lrp_total: "\<exists>vs. linear_regression_predict ys h = Some vs \<and> length vs = nat h"
proof (cases "ys = []")
  case True
  then show ?thesis by (simp add: lrp_empty)
next
  case False
  then show ?thesis by (simp add: lrp_nonempty py_range_def)
qed
lemma last_sort_key_Max:
  assumes "xs \<noteq> []"
  shows "f (last (sort_key f xs)) = Max (f ` set xs)"
proof -
  let ?s = "sort_key f xs"
  have ne: "?s \<noteq> []" using assms by (metis length_sort length_0_conv)
  have srt: "sorted (map f ?s)" by (rule sorted_sort_key)
  have "Max (f ` set xs) = f (last ?s)"
  proof (rule Max_eqI)
    show "finite (f ` set xs)" by simp
    show "f (last ?s) \<in> f ` set xs"
      using last_in_set [OF ne] by auto
    fix k assume "k \<in> f ` set xs"
    then have "k \<in> set (map f ?s)" by simp
    then obtain i where i: "i < length (map f ?s)" "map f ?s ! i = k"
      by (metis in_set_conv_nth)
    have "map f ?s ! i \<le> map f ?s ! (length (map f ?s) - 1)"
      using i(1) by (intro sorted_nth_mono [OF srt]) simp_all
    then have "k \<le> last (map f ?s)"
      using ne i(2) by (simp add: last_conv_nth)
    then show "k \<le> f (last ?s)" using ne by (simp add: last_map)
  qed
  then show ?thesis by simp
qed

lemma last_sorted_points_key:
  assumes "bills \<noteq> []"
  shows "(year (last (sort_asc (get_usage_points bills))),
          month (last (sort_asc (get_usage_points bills)))) = Max (bill_key ` set bills)"
proof -
  have ne: "sort_key bill_key bills \<noteq> []" using assms by (metis length_sort length_0_conv)
  have "period_key (last (sort_asc (get_usage_points bills)))
          = bill_key (last (sort_key bill_key bills))"
    by (simp add: sort_asc_usage_points last_map ne period_key_usage_point_of)
  then show ?thesis
    by (simp add: period_key_def last_sort_key_Max [OF assms])
qed

lemma predict_usage_nonempty:
  assumes "bills \<noteq> []"
    and "linear_regression_predict
           (map kilowatt_hours (sort_asc (get_usage_points bills))) h = Some vs"
  shows "predict_usage bills h =
     Some \<lparr> horizon_months = h,
            predictions = predict_loop (fst (Max (bill_key ` set bills)))
                                       (snd (Max (bill_key ` set bills))) vs \<rparr>"
proof -
  have ne: "sort_asc (get_usage_points bills) \<noteq> []"
    using assms(1) by (simp add: sort_asc_Nil_iff get_usage_points_Nil_iff)
  show ?thesis
    unfolding predict_usage_def Let_def
    using ne assms(2)
    by (simp add: index_py_last last_sorted_points_key [OF assms(1), symmetric])
qed

lemma sorted_points_kwh:
  "map kilowatt_hours (sort_asc (get_usage_points bills))
     = map bill_kilowatt_hours (sort_key bill_key bills)"
  by (simp add: sort_asc_usage_points usage_point_of_def comp_def)

text \<open>
  C8: for every non-empty store whose latest period (the greatest (year, month) among
  its bills) is \<open>(y, 12)\<close>, \<open>predict_usage\<close> with horizon 1 returns exactly one prediction
  and its period is \<open>(y + 1, 1)\<close>: the month rolls over from 12 to 1 and the year is
  incremented.
\<close>

theorem predict_december_rollover:
  "bills \<noteq> [] \<and> Max (bill_key ` set bills) = (y, 12) \<longrightarrow>
     (\<exists>v. predict_usage bills 1 =
            Some \<lparr> horizon_months = 1,
                   predictions = [\<lparr> pp_year = y + 1, pp_month = 1, predicted_kwh = v \<rparr>] \<rparr>)"
proof
  assume h: "bills \<noteq> [] \<and> Max (bill_key ` set bills) = (y, 12)"
  obtain vs where vs: "linear_regression_predict
           (map kilowatt_hours (sort_asc (get_usage_points bills))) 1 = Some vs"
      and len: "length vs = nat 1"
    using lrp_total by blast
  from len obtain v where v: "vs = [v]"
    by (cases vs) simp_all
  show "\<exists>v. predict_usage bills 1 =
            Some \<lparr> horizon_months = 1,
                   predictions = [\<lparr> pp_year = y + 1, pp_month = 1, predicted_kwh = v \<rparr>] \<rparr>"
    using h predict_usage_nonempty [OF _ vs] by (simp add: v)
qed

theorem predict_december_rollover_witness:
  "[mk_bill 1 2023 11 250 30 (7 / 10), mk_bill 2 2023 12 300 40 (7 / 10)] \<noteq> []
   \<and> Max (bill_key ` set [mk_bill 1 2023 11 250 30 (7 / 10), mk_bill 2 2023 12 300 40 (7 / 10)])
       = (2023, 12)
   \<and> (\<exists>v. predict_usage [mk_bill 1 2023 11 250 30 (7 / 10), mk_bill 2 2023 12 300 40 (7 / 10)] 1 =
            Some \<lparr> horizon_months = 1,
                   predictions = [\<lparr> pp_year = 2024, pp_month = 1, predicted_kwh = v \<rparr>] \<rparr>)"
  using predict_december_rollover
    [of "[mk_bill 1 2023 11 250 30 (7 / 10), mk_bill 2 2023 12 300 40 (7 / 10)]" 2023]
  by (simp add: bill_key_def mk_bill_def)

text \<open>
  C6: for a store of exactly one (well-formed) bill and every horizon, \<open>predict_usage\<close>
  returns \<open>max(0, horizon)\<close> predictions, each with the bill's kWh unchanged; the single
  record (2023, 5, 100 kWh) with horizon 2 gives 100 for 2023-06 and 100 for 2023-07.
\<close>

theorem predict_single_record_flat:
  "(valid_bill b \<longrightarrow>
      (\<exists>ps. predict_usage [b] h = Some \<lparr> horizon_months = h, predictions = ps \<rparr>
           \<and> map predicted_kwh ps = replicate (nat (max 0 h)) (bill_kilowatt_hours b)))
   \<and> predict_usage [mk_bill i 2023 5 100 c e] 2 =
        Some \<lparr> horizon_months = 2,
               predictions = [\<lparr> pp_year = 2023, pp_month = 6, predicted_kwh = 100 \<rparr>,
                              \<lparr> pp_year = 2023, pp_month = 7, predicted_kwh = 100 \<rparr>] \<rparr>"
proof (intro conjI impI)
  have lr: "linear_regression_predict (map kilowatt_hours (sort_asc (get_usage_points [b']))) h'
              = Some (replicate (nat h') (bill_kilowatt_hours b'))" for b' h'
    by (simp add: sorted_points_kwh lrp_single)
  {
    assume v: "valid_bill b"
    then have k: "0 \<le> bill_kilowatt_hours b" by (simp add: valid_bill_def)
    show "\<exists>ps. predict_usage [b] h = Some \<lparr> horizon_months = h, predictions = ps \<rparr>
           \<and> map predicted_kwh ps = replicate (nat (max 0 h)) (bill_kilowatt_hours b)"
      using k by (simp add: predict_usage_nonempty [OF _ lr] predict_loop_values max_def)
  }
  show "predict_usage [mk_bill i 2023 5 100 c e] 2 =
        Some \<lparr> horizon_months = 2,
               predictions = [\<lparr> pp_year = 2023, pp_month = 6, predicted_kwh = 100 \<rparr>,
                              \<lparr> pp_year = 2023, pp_month = 7, predicted_kwh = 100 \<rparr>] \<rparr>"
    by (simp add: predict_usage_nonempty [OF _ lr] mk_bill_def bill_key_def numeral_2_eq_2)
qed

theorem predict_single_record_flat_witness:
  "valid_bill (mk_bill 7 2023 12 250 30 (7 / 10))
   \<and> (\<exists>ps. predict_usage [mk_bill 7 2023 12 250 30 (7 / 10)] 3
              = Some \<lparr> horizon_months = 3, predictions = ps \<rparr>
         \<and> map predicted_kwh ps = [250, 250, 250])"
  using predict_single_record_flat [of "mk_bill 7 2023 12 250 30 (7 / 10)" 3]
  by (simp add: valid_bill_def mk_bill_def numeral_3_eq_3)





section \<open>Properties of the trend analysis\<close>





end
